theory Spec2Isabelle
  imports Main "HOL-Library.Sublist"
begin

section \<open>Values crossing the wire\<close>

text \<open>
  The Go code holds decoded JSON in \<open>interface{}\<close> and \<open>map[string]interface{}\<close>.
  A value is kept here by its shape. \<open>JNull\<close> is the nil interface, \<open>JInt\<close> an
  integer (a Go \<open>int\<close> constant, or an integer literal of the input), \<open>JFloat\<close> any
  other number, kept by its literal. An object is its list of entries, read with
  \<open>map_of\<close> as Go reads a map by key; a nil map is \<open>None\<close> of \<open>jobj option\<close>.
\<close>

datatype jvalue =
    JNull
  | JBool bool
  | JInt int
  | JFloat string
  | JString string
  | JArray "jvalue list"
  | JObject "(string \<times> jvalue) list"

type_synonym jobj = "(string \<times> jvalue) list"

text \<open>The type assertions \<open>m[k].(string)\<close> and \<open>m[k].(map[string]interface{})\<close>:
  the zero value when the key is missing or holds another kind of value.\<close>

definition asString :: "jobj \<Rightarrow> string \<Rightarrow> string \<times> bool" where
  "asString m k = (case map_of m k of Some (JString s) \<Rightarrow> (s, True) | _ \<Rightarrow> ([], False))"

definition asMap :: "jobj \<Rightarrow> string \<Rightarrow> jobj option" where
  "asMap m k = (case map_of m k of Some (JObject kv) \<Rightarrow> Some kv | _ \<Rightarrow> None)"

definition asSlice :: "jobj \<Rightarrow> string \<Rightarrow> jvalue list" where
  "asSlice m k = (case map_of m k of Some (JArray xs) \<Rightarrow> xs | _ \<Rightarrow> [])"



section \<open>Decimal rendering (\<open>%d\<close>)\<close>

definition digitChar :: "nat \<Rightarrow> char" where
  "digitChar d = char_of (48 + d)"

function natToDec :: "nat \<Rightarrow> string" where
  "natToDec n = (if n < 10 then [digitChar n] else natToDec (n div 10) @ [digitChar (n mod 10)])"
  by pat_completeness auto
termination
  by (relation "measure id") auto

declare natToDec.simps [simp del]

definition itoa :: "int \<Rightarrow> string" where
  "itoa i = (if i < 0 then CHR ''-'' # natToDec (nat (- i)) else natToDec (nat i))"

section \<open>types/errors.go\<close>

text \<open>
  Each error struct is a constructor carrying its fields and its optional cause.
  \<open>ErrorString\<close> is an error made by \<open>fmt.Errorf\<close>; \<open>Foreign\<close> is an error
  of the standard library (a JSON syntax or type error, an I/O error, the error of
  a cancelled context), kept by its text.
\<close>

datatype error =
    CLINotFoundError string "error option"
  | CLIConnectionError string "error option"
  | ProcessError string int "error option"
  | JSONDecodeError string string "error option"
  | MessageParseError string string "error option"
  | ControlProtocolError string "error option"
  | PermissionDeniedError string string string "error option"
  | SessionNotFoundError string string "error option"
  | ErrorString string
  | Foreign string




fun Unwrap :: "error \<Rightarrow> error option" where
  "Unwrap (CLINotFoundError m c) = c"
| "Unwrap (CLIConnectionError m c) = c"
| "Unwrap (ProcessError m code c) = c"
| "Unwrap (JSONDecodeError m raw c) = c"
| "Unwrap (MessageParseError m ty c) = c"
| "Unwrap (ControlProtocolError m c) = c"
| "Unwrap (PermissionDeniedError m tool reason c) = c"
| "Unwrap (SessionNotFoundError sid m c) = c"
| "Unwrap (ErrorString s) = None"
| "Unwrap (Foreign s) = None"


fun IsJSONDecodeError :: "error \<Rightarrow> bool" where
  "IsJSONDecodeError (JSONDecodeError m raw c) = True"
| "IsJSONDecodeError (CLINotFoundError m c) = (case c of None \<Rightarrow> False | Some e \<Rightarrow> IsJSONDecodeError e)"
| "IsJSONDecodeError (CLIConnectionError m c) = (case c of None \<Rightarrow> False | Some e \<Rightarrow> IsJSONDecodeError e)"
| "IsJSONDecodeError (ProcessError m code c) = (case c of None \<Rightarrow> False | Some e \<Rightarrow> IsJSONDecodeError e)"
| "IsJSONDecodeError (MessageParseError m ty c) = (case c of None \<Rightarrow> False | Some e \<Rightarrow> IsJSONDecodeError e)"
| "IsJSONDecodeError (ControlProtocolError m c) = (case c of None \<Rightarrow> False | Some e \<Rightarrow> IsJSONDecodeError e)"
| "IsJSONDecodeError (PermissionDeniedError m tool reason c) = (case c of None \<Rightarrow> False | Some e \<Rightarrow> IsJSONDecodeError e)"
| "IsJSONDecodeError (SessionNotFoundError sid m c) = (case c of None \<Rightarrow> False | Some e \<Rightarrow> IsJSONDecodeError e)"
| "IsJSONDecodeError (ErrorString s) = False"
| "IsJSONDecodeError (Foreign s) = False"

section \<open>The diagnostic-stream extractor (transport)\<close>

definition isWhitespace :: "char \<Rightarrow> bool" where
  "isWhitespace r = (r = CHR '' '' \<or> r = CHR 0x09 \<or> r = CHR 0x0A \<or> r = CHR 0x0D)"

text \<open>\<open>findSubstring\<close>: the loop over \<open>i\<close> from 0 while \<open>i \<le> len(s) - len(substr)\<close>,
  with Go's signed arithmetic in the bound; \<open>-1\<close> when nothing matches.\<close>

function findSubstringFrom :: "nat \<Rightarrow> string \<Rightarrow> string \<Rightarrow> int" where
  "findSubstringFrom i s substr =
     (if int i \<le> int (length s) - int (length substr)
      then (if take (length substr) (drop i s) = substr then int i
            else findSubstringFrom (Suc i) s substr)
      else - 1)"
  by pat_completeness auto
termination
  by (relation "measure (\<lambda>(i, s, substr). Suc (length s) - i)") auto

declare findSubstringFrom.simps [simp del]

definition findSubstring :: "string \<Rightarrow> string \<Rightarrow> int" where
  "findSubstring s substr = findSubstringFrom 0 s substr"

function trimStart :: "string \<Rightarrow> nat \<Rightarrow> nat" where
  "trimStart s start =
     (if start < length s \<and> isWhitespace (s ! start) then trimStart s (Suc start) else start)"
  by pat_completeness auto
termination
  by (relation "measure (\<lambda>(s, start). length s - start)") auto

declare trimStart.simps [simp del]

function trimEnd :: "string \<Rightarrow> nat \<Rightarrow> nat \<Rightarrow> nat" where
  "trimEnd s start end =
     (if end > start \<and> isWhitespace (s ! (end - 1)) then trimEnd s start (end - 1) else end)"
  by pat_completeness auto
termination
  by (relation "measure (\<lambda>(s, start, end). end)") auto

declare trimEnd.simps [simp del]

definition trimWhitespace :: "string \<Rightarrow> string" where
  "trimWhitespace s =
     (let start = trimStart s 0; end = trimEnd s start (length s)
      in take (end - start) (drop start s))"

function tokenEnd :: "string \<Rightarrow> nat \<Rightarrow> nat" where
  "tokenEnd sessionID endIdx =
     (if endIdx < length sessionID \<and> \<not> isWhitespace (sessionID ! endIdx)
      then tokenEnd sessionID (Suc endIdx) else endIdx)"
  by pat_completeness auto
termination
  by (relation "measure (\<lambda>(s, i). length s - i)") auto

declare tokenEnd.simps [simp del]

definition sessionPattern :: string where
  "sessionPattern = ''No conversation found with session ID:''"

definition extractSessionNotFoundError :: "string \<Rightarrow> bool \<times> string" where
  "extractSessionNotFoundError stderrText =
     (let idx = findSubstring stderrText sessionPattern in
      if idx \<ge> 0 then
        (let sessionIDStart = nat idx + length sessionPattern in
         if sessionIDStart < length stderrText then
           (let remaining = drop sessionIDStart stderrText;
                sessionID = trimWhitespace remaining
            in if length sessionID > 0
               then (True, take (tokenEnd sessionID 0) sessionID)
               else (False, []))
         else (False, []))
      else (False, []))"

section \<open>The line transport\<close>

text \<open>
  The fields of \<open>SubprocessCLITransport\<close> that its error and readiness logic reads:
  \<open>cmd\<close> and \<open>writer\<close> are kept as "is set", \<open>written\<close> is the lines that reached
  the child's input.
\<close>

record SubprocessCLITransport =
  cmd :: bool
  writer :: bool
  ready :: bool
  err :: "error option"
  written :: "string list"

definition NewSubprocessCLITransport :: SubprocessCLITransport where
  "NewSubprocessCLITransport =
     \<lparr>cmd = False, writer = False, ready = False, err = None, written = []\<rparr>"

text \<open>What starting the child can fail on; the argument is the operating system's error.\<close>

datatype spawn_failure =
    StdinPipeFailed error
  | StdoutPipeFailed error
  | StderrPipeFailed error
  | StartFailed error

definition transportConnect ::
  "spawn_failure option \<Rightarrow> SubprocessCLITransport \<Rightarrow> SubprocessCLITransport \<times> error option" where
  "transportConnect spawn t =
     (if cmd t then (t, None)
      else (case spawn of
          Some (StdinPipeFailed e) \<Rightarrow>
            (t\<lparr>cmd := True\<rparr>, Some (CLIConnectionError ''failed to create stdin pipe'' (Some e)))
        | Some (StdoutPipeFailed e) \<Rightarrow>
            (t\<lparr>cmd := True\<rparr>, Some (CLIConnectionError ''failed to create stdout pipe'' (Some e)))
        | Some (StderrPipeFailed e) \<Rightarrow>
            (t\<lparr>cmd := True\<rparr>, Some (CLIConnectionError ''failed to create stderr pipe'' (Some e)))
        | Some (StartFailed e) \<Rightarrow>
            (t\<lparr>cmd := True\<rparr>, Some (CLIConnectionError ''failed to start subprocess'' (Some e)))
        | None \<Rightarrow> (t\<lparr>cmd := True, writer := True, ready := True\<rparr>, None)))"

text \<open>\<open>Write\<close>; \<open>wl\<close> is what \<open>WriteLine\<close> on the pipe returns.\<close>

definition Write ::
  "error option \<Rightarrow> string \<Rightarrow> SubprocessCLITransport \<Rightarrow> SubprocessCLITransport \<times> error option" where
  "Write wl data t =
     (if \<not> ready t then (t, Some (CLIConnectionError ''transport is not ready for writing'' None))
      else if \<not> writer t then (t, Some (CLIConnectionError ''stdin writer not initialized'' None))
      else (case wl of
          Some e \<Rightarrow>
            (let e' = CLIConnectionError ''failed to write to subprocess stdin'' (Some e)
             in (t\<lparr>ready := False, err := Some e'\<rparr>, Some e'))
        | None \<Rightarrow> (t\<lparr>written := written t @ [data]\<rparr>, None)))"

definition OnError :: "error \<Rightarrow> SubprocessCLITransport \<Rightarrow> SubprocessCLITransport" where
  "OnError e t = (if err t = None then t\<lparr>err := Some e\<rparr> else t)"

definition IsReady :: "SubprocessCLITransport \<Rightarrow> bool" where
  "IsReady t = ready t"

definition GetError :: "SubprocessCLITransport \<Rightarrow> error option" where
  "GetError t = err t"


definition sessionNotFoundText :: string where
  "sessionNotFoundText =
     ''Claude CLI could not find this conversation. It may have been deleted or the CLI was reinstalled.''"

definition parseStderrError :: "string \<Rightarrow> SubprocessCLITransport \<Rightarrow> SubprocessCLITransport" where
  "parseStderrError stderrText t =
     (case extractSessionNotFoundError stderrText of
        (True, sessionID) \<Rightarrow> OnError (SessionNotFoundError sessionID sessionNotFoundText None) t
      | (False, _) \<Rightarrow> t)"

section \<open>types/messages.go\<close>

datatype ContentBlock =
    TextBlock string string
  | ThinkingBlock string string string
  | ToolUseBlock string string string "jobj option"
  | ToolResultBlock string string jvalue "bool option"

text \<open>The fields, in the order of the struct declarations: \<open>TextBlock Type Text\<close>,
  \<open>ThinkingBlock Type Thinking Signature\<close>, \<open>ToolUseBlock Type ID Name Input\<close>,
  \<open>ToolResultBlock Type ToolUseID Content IsError\<close>.\<close>

datatype UserContent = ContentString string | ContentBlocks "ContentBlock list"

record SystemMessage =
  Type :: string
  Subtype :: string
  Data :: "jobj option"
  Response :: "jobj option"
  Request :: "jobj option"

text \<open>\<open>UserMsg Type Content ParentToolUseID\<close>, \<open>AssistantMsg Type Content Model
  ParentToolUseID\<close>, \<open>ResultMsg Type Subtype DurationMs DurationAPIMs IsError NumTurns
  SessionID TotalCostUSD Usage Result\<close>, \<open>StreamEvent Type UUID SessionID Event
  ParentToolUseID\<close>.\<close>

datatype Message =
    UserMsg string UserContent "string option"
  | AssistantMsg string "ContentBlock list" string "string option"
  | SystemMsg SystemMessage
  | ResultMsg string string int int bool int string "jvalue option" "jobj option" "string option"
  | StreamEvent string string string "jobj option" "string option"

fun GetMessageType :: "Message \<Rightarrow> string" where
  "GetMessageType (UserMsg ty c p) = ty"
| "GetMessageType (AssistantMsg ty c m p) = ty"
| "GetMessageType (SystemMsg sm) = Type sm"
| "GetMessageType (ResultMsg ty st d da ie nt sid cost usage res) = ty"
| "GetMessageType (StreamEvent ty uuid sid ev p) = ty"

subsection \<open>What \<open>json.Unmarshal\<close> does on a value, field by field\<close>















subsection \<open>Content blocks\<close>








subsection \<open>Messages\<close>











subsection \<open>A compact rendering of values\<close>

text \<open>The source text of a value, for the concrete lines of the examples below: the
  compact JSON of a value whose strings need no escaping.\<close>

fun compact :: "jvalue \<Rightarrow> string"
  and compactList :: "jvalue list \<Rightarrow> string"
  and compactFields :: "(string \<times> jvalue) list \<Rightarrow> string" where
  "compact JNull = ''null''"
| "compact (JBool b) = (if b then ''true'' else ''false'')"
| "compact (JInt n) = itoa n"
| "compact (JFloat l) = l"
| "compact (JString s) = CHR 0x22 # s @ [CHR 0x22]"
| "compact (JArray xs) = ''['' @ compactList xs @ '']''"
| "compact (JObject kv) = ''{'' @ compactFields kv @ ''}''"
| "compactList [] = []"
| "compactList [x] = compact x"
| "compactList (x # y # r) = compact x @ '','' @ compactList (y # r)"
| "compactFields [] = []"
| "compactFields [(k, v)] = CHR 0x22 # k @ [CHR 0x22] @ '':'' @ compact v"
| "compactFields ((k, v) # f # r) =
     CHR 0x22 # k @ [CHR 0x22] @ '':'' @ compact v @ '','' @ compactFields (f # r)"

section \<open>The control router (\<open>Query\<close>)\<close>

subsection \<open>Callbacks and their results\<close>

text \<open>
  Modelled from the spec: the structs \<open>types.PermissionUpdate\<close>,
  \<open>types.PermissionResultAllow\<close> and \<open>types.PermissionResultDeny\<close> are declared in a
  file that is not among the sources; their fields are those the router and its tests
  use. A permission update is kept as the fields of its JSON form. What the callback
  returns is an \<open>interface{}\<close>: one of the two structs, by value or by pointer, or
  something else.
\<close>

datatype PermissionUpdate = PermissionUpdate jobj

fun permissionUpdateJSON :: "PermissionUpdate \<Rightarrow> jvalue" where
  "permissionUpdateJSON (PermissionUpdate kv) = JObject kv"

record PermissionResultAllow =
  AllowBehavior :: string
  UpdatedInput :: "jobj option"
  UpdatedPermissions :: "PermissionUpdate list"

record PermissionResultDeny =
  DenyBehavior :: string
  DenyMessage :: string
  Interrupt :: bool

datatype PermissionResult =
    AllowValue PermissionResultAllow
  | AllowPointer PermissionResultAllow
  | DenyValue PermissionResultDeny
  | DenyPointer PermissionResultDeny
  | OtherResult

text \<open>The callbacks, as functions of the arguments the router passes (the context
  argument aside). A hook returns an \<open>interface{}\<close>: a map, or something else.\<close>

type_synonym CanUseToolFunc =
  "string \<Rightarrow> jobj \<Rightarrow> PermissionUpdate list \<Rightarrow> error + PermissionResult"

datatype hookOutput = MapOutput "jobj option" | OtherOutput

type_synonym HookCallbackFunc = "jvalue \<Rightarrow> string option \<Rightarrow> error + hookOutput"

type_synonym MCPServer = "jobj \<Rightarrow> error + jobj option"

subsection \<open>State\<close>

record responseResult =
  response :: "jobj option"
  rerr :: "error option"

text \<open>
  The fields of \<open>Query\<close>. \<open>ctxErr\<close> is \<open>q.ctx.Err()\<close>: \<open>None\<close> until the context is
  cancelled. A response channel is a number; \<open>chans\<close> gives the buffer of each
  channel (capacity 1) and \<open>nextChan\<close> is the next channel \<open>make\<close> returns.
  \<open>messagesChan\<close> is the sequence of messages sent to the consumer (a send that waits
  for room in the buffer is taken at its completion). \<open>spawned\<close> lists the control
  requests for which a handler goroutine was started. \<open>stopChan\<close> says whether the
  stop channel is closed.
\<close>

record Query =
  transport :: SubprocessCLITransport
  ctxErr :: "error option"
  requestMap :: "string \<rightharpoonup> nat"
  nextRequestID :: int
  hookCallbacks :: "string \<rightharpoonup> HookCallbackFunc"
  nextHookCallbackID :: int
  canUseTool :: "CanUseToolFunc option"
  mcpServers :: "string \<rightharpoonup> MCPServer"
  messagesChan :: "Message list"
  stopChan :: bool
  started :: bool
  initialized :: bool
  initializeResult :: "jobj option"
  isStreamingMode :: bool
  chans :: "nat \<Rightarrow> responseResult list"
  nextChan :: nat
  spawned :: "SystemMessage list"

definition NewQuery ::
  "error option \<Rightarrow> SubprocessCLITransport \<Rightarrow> CanUseToolFunc option \<Rightarrow> bool \<Rightarrow> Query" where
  "NewQuery parentErr tr cb streaming =
     \<lparr>transport = tr, ctxErr = parentErr, requestMap = Map.empty, nextRequestID = 0,
      hookCallbacks = Map.empty, nextHookCallbackID = 0, canUseTool = cb,
      mcpServers = Map.empty, messagesChan = [], stopChan = False, started = False,
      initialized = False, initializeResult = None, isStreamingMode = streaming,
      chans = (\<lambda>_. []), nextChan = 0, spawned = []\<rparr>"

definition ctxDone :: "Query \<Rightarrow> bool" where
  "ctxDone q = (ctxErr q \<noteq> None)"

definition cancelCtx :: "error \<Rightarrow> Query \<Rightarrow> Query" where
  "cancelCtx e q = (case ctxErr q of None \<Rightarrow> q\<lparr>ctxErr := Some e\<rparr> | Some _ \<Rightarrow> q)"


subsection \<open>Request identifiers\<close>

text \<open>\<open>atomic.AddInt64\<close> on an \<open>int64\<close>: the sum wraps around at \<open>2^63\<close>.\<close>

definition wrap64 :: "int \<Rightarrow> int" where
  "wrap64 x = (x + 2 ^ 63) mod 2 ^ 64 - 2 ^ 63"

definition requestIDString :: "int \<Rightarrow> string" where
  "requestIDString n = ''req_'' @ itoa n"

definition generateRequestID :: "Query \<Rightarrow> Query \<times> string" where
  "generateRequestID q =
     (let n = wrap64 (nextRequestID q + 1)
      in (q\<lparr>nextRequestID := n\<rparr>, requestIDString n))"

definition registerHookCallback :: "HookCallbackFunc \<Rightarrow> Query \<Rightarrow> Query \<times> string" where
  "registerHookCallback callback q =
     (let n = wrap64 (nextHookCallbackID q + 1); callbackID = ''hook_'' @ itoa n
      in (q\<lparr>nextHookCallbackID := n, hookCallbacks := (hookCallbacks q)(callbackID \<mapsto> callback)\<rparr>,
          callbackID))"

subsection \<open>Control responses\<close>

text \<open>
  The \<open>select\<close> between the send on a response channel and \<open>q.ctx.Done()\<close>. With
  room in the buffer and a live context the send happens; with both ready the runtime
  picks one (\<open>pickDone\<close> says it picks the context); with a full buffer and a live
  context the goroutine stays blocked (\<open>None\<close>).
\<close>

definition deliver :: "bool \<Rightarrow> nat \<Rightarrow> responseResult \<Rightarrow> Query \<Rightarrow> Query option" where
  "deliver pickDone responseChan r q =
     (if length (chans q responseChan) < 1 then
        (if ctxDone q \<and> pickDone then Some q
         else Some (q\<lparr>chans := (chans q)(responseChan := chans q responseChan @ [r])\<rparr>))
      else if ctxDone q then Some q else None)"

definition handleControlResponse ::
  "bool \<Rightarrow> SystemMessage \<Rightarrow> Query \<Rightarrow> (Query \<times> error option) option" where
  "handleControlResponse pickDone msg q =
     (case Response msg of
        None \<Rightarrow>
          Some (q, Some (ControlProtocolError
                  ''invalid control response format: response field is nil'' None))
      | Some responseData \<Rightarrow>
          (case asString responseData ''request_id'' of
             (_, False) \<Rightarrow>
               Some (q, Some (ControlProtocolError ''missing request_id in control response'' None))
           | (requestID, True) \<Rightarrow>
               (case requestMap q requestID of
                  None \<Rightarrow> Some (q, None)
                | Some responseChan \<Rightarrow>
                    (let q1 = q\<lparr>requestMap := (requestMap q)(requestID := None)\<rparr>;
                         subtype = fst (asString responseData ''subtype'')
                     in if subtype = ''error'' then
                          (let errMsg0 = fst (asString responseData ''error'');
                               errMsg = (if errMsg0 = [] then ''unknown control protocol error''
                                         else errMsg0)
                           in map_option (\<lambda>q2. (q2, None))
                                (deliver pickDone responseChan
                                   \<lparr>response = None,
                                    rerr = Some (ControlProtocolError errMsg None)\<rparr> q1))
                        else
                          map_option (\<lambda>q2. (q2, None))
                            (deliver pickDone responseChan
                               \<lparr>response = asMap responseData ''response'', rerr = None\<rparr> q1)))))"

subsection \<open>Control requests from the child\<close>

text \<open>\<open>parseUpdate\<close> is the round trip of a suggestion through \<open>json.Marshal\<close> and
  \<open>json.Unmarshal\<close> into a \<open>PermissionUpdate\<close>; a suggestion that fails it is left out.\<close>

fun parseSuggestions :: "(jobj \<Rightarrow> PermissionUpdate option) \<Rightarrow> jvalue list \<Rightarrow> PermissionUpdate list" where
  "parseSuggestions parseUpdate [] = []"
| "parseSuggestions parseUpdate (JObject suggestionMap # rest) =
     (case parseUpdate suggestionMap of
        Some update \<Rightarrow> update # parseSuggestions parseUpdate rest
      | None \<Rightarrow> parseSuggestions parseUpdate rest)"
| "parseSuggestions parseUpdate (_ # rest) = parseSuggestions parseUpdate rest"

definition allowResponse :: "jobj \<Rightarrow> PermissionResultAllow \<Rightarrow> jobj" where
  "allowResponse input r =
     [(''behavior'', JString ''allow''),
      (''updatedInput'', (case UpdatedInput r of Some u \<Rightarrow> JObject u | None \<Rightarrow> JObject input))]
     @ (if length (UpdatedPermissions r) > 0
        then [(''updatedPermissions'', JArray (map permissionUpdateJSON (UpdatedPermissions r)))]
        else [])"

definition denyResponse :: "PermissionResultDeny \<Rightarrow> jobj" where
  "denyResponse r =
     [(''behavior'', JString ''deny'')]
     @ (if DenyMessage r \<noteq> [] then [(''message'', JString (DenyMessage r))] else [])
     @ (if Interrupt r then [(''interrupt'', JBool (Interrupt r))] else [])"

definition handlePermissionRequest ::
  "(jobj \<Rightarrow> PermissionUpdate option) \<Rightarrow> Query \<Rightarrow> jobj \<Rightarrow> error + jobj option" where
  "handlePermissionRequest parseUpdate q requestData =
     (case canUseTool q of
        None \<Rightarrow> Inl (ControlProtocolError ''canUseTool callback is not provided'' None)
      | Some callback \<Rightarrow>
          (let toolName = fst (asString requestData ''tool_name'');
               suggestions = asSlice requestData ''permission_suggestions''
           in case asMap requestData ''input'' of
                None \<Rightarrow>
                  Inl (ControlProtocolError ''missing tool_name or input in permission request'' None)
              | Some input \<Rightarrow>
                  if toolName = [] then
                    Inl (ControlProtocolError ''missing tool_name or input in permission request'' None)
                  else
                    (case callback toolName input (parseSuggestions parseUpdate suggestions) of
                       Inl e \<Rightarrow> Inl e
                     | Inr (AllowValue r) \<Rightarrow> Inr (Some (allowResponse input r))
                     | Inr (AllowPointer r) \<Rightarrow> Inr (Some (allowResponse input r))
                     | Inr (DenyValue r) \<Rightarrow> Inr (Some (denyResponse r))
                     | Inr (DenyPointer r) \<Rightarrow> Inr (Some (denyResponse r))
                     | Inr OtherResult \<Rightarrow>
                         Inl (ControlProtocolError ''permission callback returned invalid type'' None))))"













subsection \<open>Control requests to the child\<close>

text \<open>
  \<open>sendControlRequest\<close> blocks in its final \<open>select\<close>, so it is two steps: the part
  up to the write, which returns the identifier and the channel it registered, and
  the \<open>select\<close> on that channel and the caller's context (\<open>callerErr\<close> is \<open>ctx.Err()\<close>,
  \<open>pickDone\<close> the runtime's choice when both are ready; \<open>None\<close> while neither is).
\<close>

definition sendControlRequest_issue ::
  "(jvalue \<Rightarrow> error + string) \<Rightarrow> error option \<Rightarrow> jobj \<Rightarrow> Query \<Rightarrow>
   Query \<times> (error + string \<times> nat)" where
  "sendControlRequest_issue marshal wl request q =
     (if \<not> isStreamingMode q then
        (q, Inl (ControlProtocolError ''control requests require streaming mode'' None))
      else
        (let (q1, requestID) = generateRequestID q;
             responseChan = nextChan q1;
             q2 = q1\<lparr>nextChan := Suc responseChan,
                     chans := (chans q1)(responseChan := []),
                     requestMap := (requestMap q1)(requestID \<mapsto> responseChan)\<rparr>;
             controlRequest = JObject [(''type'', JString ''control_request''),
                                       (''request_id'', JString requestID),
                                       (''request'', JObject request)]
         in case marshal controlRequest of
              Inl e \<Rightarrow>
                (q2\<lparr>requestMap := (requestMap q2)(requestID := None)\<rparr>,
                 Inl (ControlProtocolError ''failed to marshal control request'' (Some e)))
            | Inr data \<Rightarrow>
                (case Write wl data (transport q2) of
                   (t, Some e) \<Rightarrow>
                     (q2\<lparr>transport := t, requestMap := (requestMap q2)(requestID := None)\<rparr>,
                      Inl (ControlProtocolError ''failed to send control request'' (Some e)))
                 | (t, None) \<Rightarrow> (q2\<lparr>transport := t\<rparr>, Inr (requestID, responseChan)))))"

definition sendControlRequest_wait ::
  "error option \<Rightarrow> bool \<Rightarrow> string \<Rightarrow> nat \<Rightarrow> Query \<Rightarrow> (Query \<times> (error + jobj option)) option" where
  "sendControlRequest_wait callerErr pickDone requestID responseChan q =
     (case (chans q responseChan, callerErr) of
        ([], None) \<Rightarrow> None
      | ([], Some e) \<Rightarrow> Some (q\<lparr>requestMap := (requestMap q)(requestID := None)\<rparr>, Inl e)
      | (r # rest, None) \<Rightarrow>
          Some (q\<lparr>chans := (chans q)(responseChan := rest)\<rparr>,
                (case rerr r of Some e \<Rightarrow> Inl e | None \<Rightarrow> Inr (response r)))
      | (r # rest, Some e) \<Rightarrow>
          if pickDone then Some (q\<lparr>requestMap := (requestMap q)(requestID := None)\<rparr>, Inl e)
          else Some (q\<lparr>chans := (chans q)(responseChan := rest)\<rparr>,
                     (case rerr r of Some e' \<Rightarrow> Inl e' | None \<Rightarrow> Inr (response r))))"

subsection \<open>Routing\<close>

definition routeMessage :: "bool \<Rightarrow> Message \<Rightarrow> Query \<Rightarrow> (Query \<times> error option) option" where
  "routeMessage pickDone msg q =
     (let msgType = GetMessageType msg
      in if msgType = ''control_response'' then
           (case msg of
              SystemMsg sysMsg \<Rightarrow> handleControlResponse pickDone sysMsg q
            | _ \<Rightarrow> Some (q, Some (ControlProtocolError ''invalid control_response message type'' None)))
         else if msgType = ''control_request'' then
           (case msg of
              SystemMsg sysMsg \<Rightarrow> Some (q\<lparr>spawned := spawned q @ [sysMsg]\<rparr>, None)
            | _ \<Rightarrow> Some (q, Some (ControlProtocolError ''invalid control_request message type'' None)))
         else if ctxDone q \<and> pickDone then Some (q, ctxErr q)
         else Some (q\<lparr>messagesChan := messagesChan q @ [msg]\<rparr>, None))"

text \<open>
  The message loop, run over what happens to it, in order: the \<open>select\<close> receives a
  message from the transport (\<open>Recv\<close>, with the runtime's choice for the inner
  \<open>select\<close>), the context is cancelled, the stop channel is closed, or the \<open>select\<close>
  takes a closed context or stop channel and the loop returns (\<open>Exit\<close>, which needs one
  of them closed). The end of the list is the transport closing its channel. A
  routing error is logged and the loop goes on; a blocked send ends the run.
\<close>

datatype loopEvent = Recv Message bool | CtxCancelled error | StopClosed | Exit

fun messageLoop :: "loopEvent list \<Rightarrow> Query \<Rightarrow> Query" where
  "messageLoop [] q = q"
| "messageLoop (Recv msg pickDone # evs) q =
     (case routeMessage pickDone msg q of
        None \<Rightarrow> q
      | Some (q1, _) \<Rightarrow> messageLoop evs q1)"
| "messageLoop (CtxCancelled e # evs) q = messageLoop evs (cancelCtx e q)"
| "messageLoop (StopClosed # evs) q = messageLoop evs (q\<lparr>stopChan := True\<rparr>)"
| "messageLoop (Exit # evs) q = (if ctxDone q \<or> stopChan q then q else messageLoop evs q)"

fun received :: "loopEvent list \<Rightarrow> Message list" where
  "received [] = []"
| "received (Recv msg pickDone # evs) = msg # received evs"
| "received (_ # evs) = received evs"

definition isControl :: "Message \<Rightarrow> bool" where
  "isControl msg =
     (GetMessageType msg = ''control_request'' \<or> GetMessageType msg = ''control_response'')"

text \<open>Every registered channel is empty and is registered under one identifier only.\<close>

definition pendingSlotsFree :: "Query \<Rightarrow> bool" where
  "pendingSlotsFree q =
     (\<forall>requestID responseChan. requestMap q requestID = Some responseChan \<longrightarrow>
        chans q responseChan = [] \<and> responseChan < nextChan q \<and>
        (\<forall>other. requestMap q other = Some responseChan \<longrightarrow> other = requestID))"

text \<open>A run of the loop in which the context is not cancelled and nobody stops the
  router.\<close>

fun quiet :: "loopEvent list \<Rightarrow> bool" where
  "quiet [] = True"
| "quiet (Recv msg pickDone # evs) = quiet evs"
| "quiet (Exit # evs) = quiet evs"
| "quiet (_ # evs) = False"

subsection \<open>Runs of the router\<close>

text \<open>What touches the pending table, in any order: a caller issues a control request,
  the loop handles a control response, a caller's wait fires, the context is cancelled.\<close>

datatype routerEvent =
    Issue jobj "error option"
  | Respond SystemMessage bool
  | Await string nat "error option" bool
  | Cancel error

fun routerStep :: "(jvalue \<Rightarrow> error + string) \<Rightarrow> routerEvent \<Rightarrow> Query \<Rightarrow> Query" where
  "routerStep marshal (Issue request wl) q = fst (sendControlRequest_issue marshal wl request q)"
| "routerStep marshal (Respond msg pickDone) q =
     (case handleControlResponse pickDone msg q of None \<Rightarrow> q | Some (q1, _) \<Rightarrow> q1)"
| "routerStep marshal (Await requestID responseChan callerErr pickDone) q =
     (case sendControlRequest_wait callerErr pickDone requestID responseChan q of
        None \<Rightarrow> q | Some (q1, _) \<Rightarrow> q1)"
| "routerStep marshal (Cancel e) q = cancelCtx e q"

fun run :: "(jvalue \<Rightarrow> error + string) \<Rightarrow> routerEvent list \<Rightarrow> Query \<Rightarrow> Query" where
  "run marshal [] q = q"
| "run marshal (ev # evs) q = run marshal evs (routerStep marshal ev q)"

text \<open>The identifiers generated along a run, in the order of their generation.\<close>

fun issued :: "(jvalue \<Rightarrow> error + string) \<Rightarrow> routerEvent list \<Rightarrow> Query \<Rightarrow> string list" where
  "issued marshal [] q = []"
| "issued marshal (Issue request wl # evs) q =
     (if isStreamingMode q then [snd (generateRequestID q)] else [])
     @ issued marshal evs (routerStep marshal (Issue request wl) q)"
| "issued marshal (ev # evs) q = issued marshal evs (routerStep marshal ev q)"

text \<open>After \<open>n\<close> identifiers have been generated the counter is \<open>n\<close> and every pending
  identifier is one of the first \<open>n\<close>.\<close>

definition idsIssued :: "nat \<Rightarrow> Query \<Rightarrow> bool" where
  "idsIssued n q =
     (nextRequestID q = int n \<and>
      (\<forall>requestID responseChan. requestMap q requestID = Some responseChan \<longrightarrow>
         (\<exists>k. 1 \<le> k \<and> k \<le> n \<and> requestID = requestIDString (int k))))"

definition marshalCompact :: "jvalue \<Rightarrow> error + string" where
  "marshalCompact v = Inr (compact v)"

subsection \<open>Starting and stopping the router\<close>



section \<open>The session client (\<open>client.go\<close>)\<close>

text \<open>
  The fields of \<open>Client\<close>: \<open>clientCtxErr\<close> is \<open>c.ctx.Err()\<close>, \<open>cancelSet\<close> says
  whether \<open>c.cancel\<close> is non-nil, \<open>clientCanUseTool\<close> is the callback of the options.
  The router holds the same transport as the client; the client's operations below
  read the client's.
\<close>

record Client =
  clientTransport :: SubprocessCLITransport
  query :: "Query option"
  connected :: bool
  clientCtxErr :: "error option"
  cancelSet :: bool
  clientCanUseTool :: "CanUseToolFunc option"

text \<open>\<open>NewClient\<close>, with the options it validates: the permission callback, the
  permission prompt tool name, the configured path and what \<open>FindCLI\<close> returns.\<close>

definition NewClient ::
  "error option \<Rightarrow> CanUseToolFunc option \<Rightarrow> string option \<Rightarrow> string option \<Rightarrow>
   error + string \<Rightarrow> error + Client" where
  "NewClient parentErr cb promptTool cliPath found =
     (let client = \<lparr>clientTransport = NewSubprocessCLITransport, query = None,
                     connected = False, clientCtxErr = parentErr, cancelSet = True,
                     clientCanUseTool = cb\<rparr>
      in case (cb, promptTool) of
           (Some _, Some _) \<Rightarrow>
             Inl (ErrorString
                   ''can_use_tool callback cannot be used with permission_prompt_tool_name'')
         | _ \<Rightarrow>
             (case cliPath of
                Some _ \<Rightarrow> Inr client
              | None \<Rightarrow> (case found of Inl e \<Rightarrow> Inl e | Inr _ \<Rightarrow> Inr client)))"

text \<open>
  What the surroundings contribute to one call: how starting the child goes, the
  errors the background readers report before the client looks, the error of the
  context passed to the call, what \<open>Initialize\<close> returns, what the wait in \<open>Stop\<close> and
  the child's exit give.
\<close>

record outcomes =
  spawn :: "spawn_failure option"
  reported :: "error list"
  callerCtxErr :: "error option"
  initializeErr :: "error option"
  stopWaitErr :: "error option"
  exitErr :: "error option"







definition IsConnected :: "Client \<Rightarrow> bool" where
  "IsConnected c = connected c"








subsection \<open>Callbacks and requests used as examples\<close>

definition allowAlways :: CanUseToolFunc where
  "allowAlways toolName input suggestions =
     Inr (AllowValue \<lparr>AllowBehavior = ''allow'', UpdatedInput = None, UpdatedPermissions = []\<rparr>)"

definition allowSanitized :: CanUseToolFunc where
  "allowSanitized toolName input suggestions =
     Inr (AllowPointer \<lparr>AllowBehavior = ''allow'',
            UpdatedInput = Some [(''file_path'', JString ''/tmp/sanitized.txt'')],
            UpdatedPermissions = []\<rparr>)"

definition parseAny :: "jobj \<Rightarrow> PermissionUpdate option" where
  "parseAny suggestionMap = Some (PermissionUpdate suggestionMap)"


definition connectedQuery :: "CanUseToolFunc option \<Rightarrow> Query" where
  "connectedQuery cb =
     NewQuery None (fst (transportConnect None NewSubprocessCLITransport)) cb True"

definition requestMessage :: "jobj \<Rightarrow> SystemMessage" where
  "requestMessage payload =
     \<lparr>Type = ''control_request'', Subtype = [], Data = None, Response = None,
      Request = Some payload\<rparr>"

definition responseMessage :: "jobj \<Rightarrow> SystemMessage" where
  "responseMessage payload =
     \<lparr>Type = ''control_response'', Subtype = [], Data = None, Response = Some payload,
      Request = None\<rparr>"

definition bashRequest :: jobj where
  "bashRequest = [(''subtype'', JString ''can_use_tool''), (''tool_name'', JString ''Bash''),
                  (''input'', JObject [(''command'', JString ''ls'')])]"




definition pendingQuery :: Query where
  "pendingQuery =
     fst (sendControlRequest_issue marshalCompact None [(''subtype'', JString ''initialize'')]
            (connectedQuery None))"

definition successPayload :: jobj where
  "successPayload =
     [(''subtype'', JString ''success''), (''request_id'', JString ''req_1''),
      (''response'', JObject [(''commands'', JArray [])])]"

definition errorPayload :: jobj where
  "errorPayload =
     [(''subtype'', JString ''error''), (''request_id'', JString ''req_1''),
      (''error'', JString ''not supported'')]"

definition orphanPayload :: jobj where
  "orphanPayload =
     [(''subtype'', JString ''success''), (''request_id'', JString ''req_7''),
      (''response'', JObject [])]"

definition assistantExample :: Message where
  "assistantExample = AssistantMsg ''assistant'' [TextBlock ''text'' ''Hello''] ''model'' None"

definition resultExample :: Message where
  "resultExample = ResultMsg ''result'' ''success'' 10 8 False 1 ''s1'' None None None"

definition exampleEvents :: "loopEvent list" where
  "exampleEvents =
     [Recv assistantExample False,
      Recv (SystemMsg (responseMessage successPayload)) False,
      Recv (SystemMsg (requestMessage bashRequest)) False,
      Recv resultExample False]"

definition exampleRun :: "routerEvent list" where
  "exampleRun =
     [Issue [(''subtype'', JString ''initialize'')] None,
      Respond (responseMessage successPayload) False,
      Issue [(''subtype'', JString ''interrupt'')] None]"



section \<open>Properties\<close>

text \<open>
  C9. The extractor maps the text "No conversation found with session ID:
  8587b432-e504-42c8-b9a7-e3fd0b4b2c60" to a match with exactly that session id, and
  \<open>parseStderrError\<close> stores a SessionNotFound error carrying it; the text
  "Connection failed: timeout" gives no match, an empty session id, and stores nothing.
\<close>

theorem extract_session_not_found_scenario:
  "extractSessionNotFoundError
     ''No conversation found with session ID: 8587b432-e504-42c8-b9a7-e3fd0b4b2c60''
     = (True, ''8587b432-e504-42c8-b9a7-e3fd0b4b2c60'')
   \<and> GetError (parseStderrError
        ''No conversation found with session ID: 8587b432-e504-42c8-b9a7-e3fd0b4b2c60''
        NewSubprocessCLITransport)
     = Some (SessionNotFoundError ''8587b432-e504-42c8-b9a7-e3fd0b4b2c60'' sessionNotFoundText None)
   \<and> extractSessionNotFoundError ''Connection failed: timeout'' = (False, [])
   \<and> GetError (parseStderrError ''Connection failed: timeout'' NewSubprocessCLITransport) = None"
  by code_simp


subsection \<open>The sticky error of the transport\<close>

lemma OnError_keeps_first:
  "GetError (foldl (\<lambda>t e. OnError e t) (OnError e0 t) es) =
     (case GetError t of None \<Rightarrow> Some e0 | Some e \<Rightarrow> Some e)"
  by (induction es arbitrary: t e0) (auto simp: OnError_def GetError_def split: option.splits)

text \<open>
  C1. GetError returns the first error reported and a later error never replaces it.
  This holds for the errors that come through \<open>OnError\<close> (lemma \<open>OnError_keeps_first\<close>),
  but a failing \<open>Write\<close> assigns the error field without looking at it: after the
  reader has reported a parse error, a write that fails replaces that error.
\<close>

theorem write_failure_replaces_first_error:
  "GetError (OnError (MessageParseError ''unknown message type'' ''bogus'' None)
       (fst (transportConnect None NewSubprocessCLITransport)))
     = Some (MessageParseError ''unknown message type'' ''bogus'' None)
   \<and> GetError (fst (Write (Some (Foreign ''write |1: broken pipe'')) ''{}''
       (OnError (MessageParseError ''unknown message type'' ''bogus'' None)
          (fst (transportConnect None NewSubprocessCLITransport)))))
     = Some (CLIConnectionError ''failed to write to subprocess stdin''
          (Some (Foreign ''write |1: broken pipe'')))"
  by (simp add: GetError_def OnError_def Write_def transportConnect_def
      NewSubprocessCLITransport_def Let_def)

subsection \<open>The message decoder\<close>

























subsection \<open>Permission requests\<close>

text \<open>
  C10. When the registered permission callback returns an Allow result (by value or by
  pointer) for a \<open>can_use_tool\<close> request, the response payload has \<open>behavior\<close> "allow"
  and always has the key \<open>updatedInput\<close>: the original input of the request when the
  result carries no updated input, the updated input when it carries one.
\<close>

theorem allow_echoes_input:
  assumes cb: "canUseTool q = Some callback"
    and tool: "fst (asString requestData ''tool_name'') = toolName" "toolName \<noteq> []"
    and inp: "asMap requestData ''input'' = Some input"
    and res: "callback toolName input
               (parseSuggestions parseUpdate (asSlice requestData ''permission_suggestions''))
              = Inr result"
    and allow: "result = AllowValue r \<or> result = AllowPointer r"
  shows "handlePermissionRequest parseUpdate q requestData = Inr (Some (allowResponse input r))
    \<and> map_of (allowResponse input r) ''behavior'' = Some (JString ''allow'')
    \<and> (UpdatedInput r = None \<longrightarrow>
         map_of (allowResponse input r) ''updatedInput'' = Some (JObject input))
    \<and> (\<forall>u. UpdatedInput r = Some u \<longrightarrow>
         map_of (allowResponse input r) ''updatedInput'' = Some (JObject u))"
proof (intro conjI impI allI)
  from allow show "handlePermissionRequest parseUpdate q requestData = Inr (Some (allowResponse input r))"
    using cb tool inp res by (elim disjE) (simp_all add: handlePermissionRequest_def Let_def)
qed (simp_all add: allowResponse_def)

theorem allow_echoes_input_witness:
  "handlePermissionRequest parseAny (connectedQuery (Some allowAlways)) bashRequest
     = Inr (Some [(''behavior'', JString ''allow''),
                  (''updatedInput'', JObject [(''command'', JString ''ls'')])])
   \<and> handlePermissionRequest parseAny (connectedQuery (Some allowSanitized)) bashRequest
     = Inr (Some [(''behavior'', JString ''allow''),
                  (''updatedInput'', JObject [(''file_path'', JString ''/tmp/sanitized.txt'')])])"
proof -
  have a: "handlePermissionRequest parseAny (connectedQuery (Some allowAlways)) bashRequest
      = Inr (Some (allowResponse [(''command'', JString ''ls'')]
           \<lparr>AllowBehavior = ''allow'', UpdatedInput = None, UpdatedPermissions = []\<rparr>))"
    using allow_echoes_input [of "connectedQuery (Some allowAlways)" allowAlways bashRequest
        "''Bash''" "[(''command'', JString ''ls'')]" parseAny
        "AllowValue \<lparr>AllowBehavior = ''allow'', UpdatedInput = None, UpdatedPermissions = []\<rparr>"
        "\<lparr>AllowBehavior = ''allow'', UpdatedInput = None, UpdatedPermissions = []\<rparr>"]
    by (simp add: connectedQuery_def NewQuery_def bashRequest_def asString_def asMap_def
        allowAlways_def)
  have b: "handlePermissionRequest parseAny (connectedQuery (Some allowSanitized)) bashRequest
      = Inr (Some (allowResponse [(''command'', JString ''ls'')]
           \<lparr>AllowBehavior = ''allow'',
            UpdatedInput = Some [(''file_path'', JString ''/tmp/sanitized.txt'')],
            UpdatedPermissions = []\<rparr>))"
    using allow_echoes_input [of "connectedQuery (Some allowSanitized)" allowSanitized bashRequest
        "''Bash''" "[(''command'', JString ''ls'')]" parseAny
        "AllowPointer \<lparr>AllowBehavior = ''allow'',
            UpdatedInput = Some [(''file_path'', JString ''/tmp/sanitized.txt'')],
            UpdatedPermissions = []\<rparr>"
        "\<lparr>AllowBehavior = ''allow'',
            UpdatedInput = Some [(''file_path'', JString ''/tmp/sanitized.txt'')],
            UpdatedPermissions = []\<rparr>"]
    by (simp add: connectedQuery_def NewQuery_def bashRequest_def asString_def asMap_def
        allowSanitized_def)
  from a b show ?thesis by (simp add: allowResponse_def)
qed

subsection \<open>Sub-protocol (MCP) requests\<close>





subsection \<open>Control responses\<close>

lemma handleControlResponse_ignores_outer:
  "handleControlResponse pickDone (msg\<lparr>Type := ty, Subtype := st, Data := d, Request := rq\<rparr>) q =
   handleControlResponse pickDone msg q"
  by (simp add: handleControlResponse_def)

lemma wait_receives:
  "chans q responseChan = [r] \<Longrightarrow>
   sendControlRequest_wait None pickDone requestID responseChan q =
     Some (q\<lparr>chans := (chans q)(responseChan := [])\<rparr>,
           (case rerr r of Some e \<Rightarrow> Inl e | None \<Rightarrow> Inr (response r)))"
  by (simp add: sendControlRequest_wait_def)

text \<open>
  C2. For a \<open>control_response\<close> whose response payload carries a request identifier:
  with no pending entry under that identifier the message is dropped, with no error
  and the router unchanged; with a pending entry, the entry is removed and, the
  router's context being live, its (empty) channel receives a control-protocol error
  when the payload's subtype is "error" and the payload's \<open>response\<close> otherwise, which
  the waiting caller's \<open>select\<close> then returns. Whatever the outcome, no error is
  returned and no other pending entry changes. The identifier is the payload's: the
  other fields of the message are not read.
\<close>

theorem control_response_resolution:
  assumes resp: "Response msg = Some responseData"
    and rid: "asString responseData ''request_id'' = (requestID, True)"
  shows
   "(requestMap q requestID = None \<longrightarrow> handleControlResponse pickDone msg q = Some (q, None))
  \<and> (requestMap q requestID = Some responseChan \<and> chans q responseChan = [] \<and> \<not> ctxDone q \<longrightarrow>
       handleControlResponse pickDone msg q =
         Some (q\<lparr>requestMap := (requestMap q)(requestID := None),
                 chans := (chans q)(responseChan :=
                   [if fst (asString responseData ''subtype'') = ''error''
                    then \<lparr>response = None,
                          rerr = Some (ControlProtocolError
                            (if fst (asString responseData ''error'') = []
                             then ''unknown control protocol error''
                             else fst (asString responseData ''error'')) None)\<rparr>
                    else \<lparr>response = asMap responseData ''response'', rerr = None\<rparr>])\<rparr>,
               None))
  \<and> (\<forall>q1 e. handleControlResponse pickDone msg q = Some (q1, e) \<longrightarrow>
        e = None \<and> requestMap q1 = (requestMap q)(requestID := None)
        \<and> (\<forall>other. other \<noteq> requestID \<longrightarrow> requestMap q1 other = requestMap q other))
  \<and> (\<forall>q1 r. chans q1 responseChan = [r] \<longrightarrow>
        sendControlRequest_wait None pickDone requestID responseChan q1 =
          Some (q1\<lparr>chans := (chans q1)(responseChan := [])\<rparr>,
                (case rerr r of Some e \<Rightarrow> Inl e | None \<Rightarrow> Inr (response r))))
  \<and> handleControlResponse pickDone (msg\<lparr>Type := ty, Subtype := st, Data := d, Request := rq\<rparr>) q =
      handleControlResponse pickDone msg q"
proof (intro conjI impI allI)
  assume "requestMap q requestID = None"
  then show "handleControlResponse pickDone msg q = Some (q, None)"
    using resp rid by (simp add: handleControlResponse_def)
next
  assume h: "requestMap q requestID = Some responseChan \<and> chans q responseChan = [] \<and> \<not> ctxDone q"
  then show "handleControlResponse pickDone msg q =
         Some (q\<lparr>requestMap := (requestMap q)(requestID := None),
                 chans := (chans q)(responseChan :=
                   [if fst (asString responseData ''subtype'') = ''error''
                    then \<lparr>response = None,
                          rerr = Some (ControlProtocolError
                            (if fst (asString responseData ''error'') = []
                             then ''unknown control protocol error''
                             else fst (asString responseData ''error'')) None)\<rparr>
                    else \<lparr>response = asMap responseData ''response'', rerr = None\<rparr>])\<rparr>,
               None)"
    using resp rid by (simp add: handleControlResponse_def deliver_def ctxDone_def Let_def)
next
  fix q1 e assume r: "handleControlResponse pickDone msg q = Some (q1, e)"
  then show "e = None"
    using resp rid
    by (auto simp: handleControlResponse_def deliver_def Let_def split: option.splits if_splits)
  from r show "requestMap q1 = (requestMap q)(requestID := None)"
    using resp rid
    by (auto simp: handleControlResponse_def deliver_def Let_def split: option.splits if_splits)
  then show "\<And>other. other \<noteq> requestID \<Longrightarrow> requestMap q1 other = requestMap q other"
    by simp
next
  fix q1 :: Query and r :: responseResult
  assume "chans q1 responseChan = [r]"
  then show "sendControlRequest_wait None pickDone requestID responseChan q1 =
          Some (q1\<lparr>chans := (chans q1)(responseChan := [])\<rparr>,
                (case rerr r of Some e \<Rightarrow> Inl e | None \<Rightarrow> Inr (response r)))"
    by (rule wait_receives)
next
  show "handleControlResponse pickDone (msg\<lparr>Type := ty, Subtype := st, Data := d, Request := rq\<rparr>) q =
      handleControlResponse pickDone msg q"
    by (rule handleControlResponse_ignores_outer)
qed

lemma pendingQuery_state:
  "requestMap pendingQuery ''req_1'' = Some 0" "requestMap pendingQuery ''req_7'' = None"
  "chans pendingQuery 0 = []" "\<not> ctxDone pendingQuery"
  by code_simp+

theorem control_response_resolution_witness:
  "requestMap pendingQuery ''req_1'' = Some 0 \<and> chans pendingQuery 0 = [] \<and> \<not> ctxDone pendingQuery
   \<and> map_option (\<lambda>(q1, e). (e, requestMap q1 ''req_1'', chans q1 0))
        (handleControlResponse False (responseMessage successPayload) pendingQuery)
      = Some (None, None, [\<lparr>response = Some [(''commands'', JArray [])], rerr = None\<rparr>])
   \<and> map_option (\<lambda>(q1, e). (e, requestMap q1 ''req_1'', chans q1 0))
        (handleControlResponse False (responseMessage errorPayload) pendingQuery)
      = Some (None, None,
          [\<lparr>response = None, rerr = Some (ControlProtocolError ''not supported'' None)\<rparr>])
   \<and> handleControlResponse False (responseMessage orphanPayload) pendingQuery
      = Some (pendingQuery, None)"
proof -
  have r: "Response (responseMessage p) = Some p" for p
    by (simp add: responseMessage_def)
  have i1: "asString successPayload ''request_id'' = (''req_1'', True)"
    "asString errorPayload ''request_id'' = (''req_1'', True)"
    "asString orphanPayload ''request_id'' = (''req_7'', True)"
    by (simp_all add: asString_def successPayload_def errorPayload_def orphanPayload_def)
  have v: "fst (asString successPayload ''subtype'') = ''success''"
    "asMap successPayload ''response'' = Some [(''commands'', JArray [])]"
    "fst (asString errorPayload ''subtype'') = ''error''"
    "fst (asString errorPayload ''error'') = ''not supported''"
    by (simp_all add: asString_def asMap_def successPayload_def errorPayload_def)
  have pre: "requestMap pendingQuery ''req_1'' = Some 0 \<and> chans pendingQuery 0 = []
      \<and> \<not> ctxDone pendingQuery"
    using pendingQuery_state by blast
  note s = control_response_resolution [OF r i1(1), where q = pendingQuery and responseChan = 0
      and pickDone = False, THEN conjunct2, THEN conjunct1, rule_format, OF pre]
  note t = control_response_resolution [OF r i1(2), where q = pendingQuery and responseChan = 0
      and pickDone = False, THEN conjunct2, THEN conjunct1, rule_format, OF pre]
  note u = control_response_resolution [OF r i1(3), where q = pendingQuery and responseChan = 0
      and pickDone = False, THEN conjunct1, rule_format, OF pendingQuery_state(2)]
  have a: "map_option (\<lambda>(q1, e). (e, requestMap q1 ''req_1'', chans q1 0))
        (handleControlResponse False (responseMessage successPayload) pendingQuery)
      = Some (None, None, [\<lparr>response = Some [(''commands'', JArray [])], rerr = None\<rparr>])"
    by (simp add: s v)
  have b: "map_option (\<lambda>(q1, e). (e, requestMap q1 ''req_1'', chans q1 0))
        (handleControlResponse False (responseMessage errorPayload) pendingQuery)
      = Some (None, None,
          [\<lparr>response = None, rerr = Some (ControlProtocolError ''not supported'' None)\<rparr>])"
    by (simp add: t v)
  from a b u pendingQuery_state show ?thesis by simp
qed

subsection \<open>The message loop\<close>

lemma deliver_messagesChan:
  "deliver pickDone ch r q = Some q1 \<Longrightarrow>
   messagesChan q1 = messagesChan q \<and> ctxErr q1 = ctxErr q \<and> stopChan q1 = stopChan q"
  by (auto simp: deliver_def split: if_splits)

lemma handleControlResponse_messagesChan:
  "handleControlResponse pickDone msg q = Some (q1, e) \<Longrightarrow>
   messagesChan q1 = messagesChan q \<and> ctxErr q1 = ctxErr q \<and> stopChan q1 = stopChan q"
  by (auto simp: handleControlResponse_def Let_def
      split: option.splits prod.splits bool.splits if_splits dest!: deliver_messagesChan)

lemma routeMessage_effect:
  assumes "routeMessage pickDone msg q = Some (q1, e)"
  shows "ctxErr q1 = ctxErr q \<and> stopChan q1 = stopChan q \<and>
     (messagesChan q1 = messagesChan q \<or>
      (messagesChan q1 = messagesChan q @ [msg] \<and> \<not> isControl msg))"
proof (cases "isControl msg")
  case True
  with assms show ?thesis
    by (auto simp: routeMessage_def isControl_def Let_def
        split: Message.splits if_splits dest: handleControlResponse_messagesChan)
next
  case False
  with assms show ?thesis
    by (auto simp: routeMessage_def isControl_def Let_def split: if_splits)
qed

lemma messageLoop_safe:
  "\<exists>d. messagesChan (messageLoop evs q) = messagesChan q @ d \<and>
       subseq d (filter (\<lambda>m. \<not> isControl m) (received evs))"
proof (induction evs q rule: messageLoop.induct)
  case (1 q)
  show ?case by simp
next
  case (2 msg pickDone evs q)
  show ?case
  proof (cases "routeMessage pickDone msg q")
    case None
    then show ?thesis by simp
  next
    case (Some a)
    obtain q1 e where a: "a = (q1, e)" by (cases a)
    from "2.IH" [OF Some a [symmetric]] obtain d where
      d: "messagesChan (messageLoop evs q1) = messagesChan q1 @ d"
        "subseq d (filter (\<lambda>m. \<not> isControl m) (received evs))"
      by blast
    from routeMessage_effect [of pickDone msg q q1 e] Some a
    have "messagesChan q1 = messagesChan q \<or>
      (messagesChan q1 = messagesChan q @ [msg] \<and> \<not> isControl msg)" by simp
    then show ?thesis
    proof
      assume same: "messagesChan q1 = messagesChan q"
      have "messagesChan (messageLoop (Recv msg pickDone # evs) q) = messagesChan q @ d"
        using Some a d(1) same by simp
      moreover have "subseq d (filter (\<lambda>m. \<not> isControl m) (received (Recv msg pickDone # evs)))"
        using d(2) by (cases "isControl msg") (simp_all add: list_emb_Cons)
      ultimately show ?thesis by blast
    next
      assume fwd: "messagesChan q1 = messagesChan q @ [msg] \<and> \<not> isControl msg"
      have "messagesChan (messageLoop (Recv msg pickDone # evs) q) = messagesChan q @ (msg # d)"
        using Some a d(1) fwd by simp
      moreover have "subseq (msg # d)
          (filter (\<lambda>m. \<not> isControl m) (received (Recv msg pickDone # evs)))"
        using d(2) fwd by simp
      ultimately show ?thesis by blast
    qed
  qed
next
  case (3 e evs q)
  then show ?case by (simp add: cancelCtx_def split: option.splits)
next
  case (4 evs q)
  then show ?case by simp
next
  case (5 evs q)
  then show ?case by auto
qed


lemma handleControlResponse_live:
  assumes free: "pendingSlotsFree q" and live: "\<not> ctxDone q"
  shows "\<exists>q1 e. handleControlResponse pickDone msg q = Some (q1, e) \<and> pendingSlotsFree q1"
proof (cases "Response msg")
  case None
  with free show ?thesis by (simp add: handleControlResponse_def)
next
  case (Some responseData)
  obtain requestID ok where rid: "asString responseData ''request_id'' = (requestID, ok)"
    by (cases "asString responseData ''request_id''")
  show ?thesis
  proof (cases ok)
    case False
    with Some rid free show ?thesis by (simp add: handleControlResponse_def)
  next
    case True
    show ?thesis
    proof (cases "requestMap q requestID")
      case None
      with Some rid True free show ?thesis by (simp add: handleControlResponse_def)
    next
      case ch: (Some responseChan)
      from free ch have empty: "chans q responseChan = []"
        and only: "\<And>other. requestMap q other = Some responseChan \<Longrightarrow> other = requestID"
        by (auto simp: pendingSlotsFree_def)
      have keep: "pendingSlotsFree
          (q\<lparr>requestMap := (requestMap q)(requestID := None),
             chans := (chans q)(responseChan := [r])\<rparr>)" for r
        using free only unfolding pendingSlotsFree_def by (auto split: if_splits)
      from Some rid True ch empty live show ?thesis
        by (auto simp: handleControlResponse_def deliver_def Let_def ctxDone_def intro: keep)
    qed
  qed
qed

lemma routeMessage_live:
  assumes free: "pendingSlotsFree q" and live: "\<not> ctxDone q"
  shows "\<exists>q1 e. routeMessage pickDone msg q = Some (q1, e) \<and> pendingSlotsFree q1
    \<and> ctxErr q1 = ctxErr q \<and> stopChan q1 = stopChan q
    \<and> messagesChan q1 = messagesChan q @ (if isControl msg then [] else [msg])"
proof (cases "isControl msg")
  case False
  with free live show ?thesis
    by (auto simp: routeMessage_def isControl_def pendingSlotsFree_def)
next
  case True
  show ?thesis
  proof (cases "GetMessageType msg = ''control_response''")
    case resp: True
    show ?thesis
    proof (cases msg)
      case (SystemMsg sysMsg)
      from handleControlResponse_live [OF free live, of pickDone sysMsg]
      obtain q1 e where r: "handleControlResponse pickDone sysMsg q = Some (q1, e)"
        and f: "pendingSlotsFree q1" by blast
      from handleControlResponse_messagesChan [OF r] r f resp SystemMsg True show ?thesis
        by (simp add: routeMessage_def)
    qed (use resp True free in \<open>simp_all add: routeMessage_def pendingSlotsFree_def\<close>)
  next
    case noresp: False
    with True have req: "GetMessageType msg = ''control_request''"
      by (simp add: isControl_def)
    show ?thesis
      using req True free
      by (cases msg) (simp_all add: routeMessage_def pendingSlotsFree_def)
  qed
qed

lemma messageLoop_complete:
  "\<not> ctxDone q \<Longrightarrow> \<not> stopChan q \<Longrightarrow> quiet evs \<Longrightarrow> pendingSlotsFree q \<Longrightarrow>
   messagesChan (messageLoop evs q) =
     messagesChan q @ filter (\<lambda>m. \<not> isControl m) (received evs)"
proof (induction evs q rule: messageLoop.induct)
  case (2 msg pickDone evs q)
  from routeMessage_live [OF "2.prems"(4) "2.prems"(1), of pickDone msg]
  obtain q1 e where r: "routeMessage pickDone msg q = Some (q1, e)"
    and f: "pendingSlotsFree q1" and c: "ctxErr q1 = ctxErr q" and s: "stopChan q1 = stopChan q"
    and m: "messagesChan q1 = messagesChan q @ (if isControl msg then [] else [msg])"
    by blast
  have "messagesChan (messageLoop evs q1) =
     messagesChan q1 @ filter (\<lambda>m. \<not> isControl m) (received evs)"
    using "2.IH" [OF r refl] "2.prems" f c s by (simp add: ctxDone_def)
  with r m show ?case by simp
qed simp_all

lemma subseq_filter_set: "subseq d (filter P xs) \<Longrightarrow> m \<in> set d \<Longrightarrow> P m"
  by (erule list_emb_set) auto

text \<open>
  C4. Whatever happens to the message loop, what reaches the consumer channel is a
  subsequence, in the transport's order and unmodified, of the messages received
  whose type is neither \<open>control_request\<close> nor \<open>control_response\<close>: no control envelope
  is ever delivered. While the router's context is live and nobody stops it (and the
  pending response channels are empty, as they are in every state the router
  reaches), it is exactly that sequence: every other message is forwarded.
\<close>

theorem consumer_stream_is_the_filtered_transport_stream:
  "(\<exists>d. messagesChan (messageLoop evs q) = messagesChan q @ d
        \<and> subseq d (filter (\<lambda>m. \<not> isControl m) (received evs))
        \<and> (\<forall>m \<in> set d. \<not> isControl m))
   \<and> (\<not> ctxDone q \<and> \<not> stopChan q \<and> quiet evs \<and> pendingSlotsFree q \<longrightarrow>
        messagesChan (messageLoop evs q) =
          messagesChan q @ filter (\<lambda>m. \<not> isControl m) (received evs))"
proof (intro conjI impI)
  from messageLoop_safe [of evs q] obtain d where
    d: "messagesChan (messageLoop evs q) = messagesChan q @ d"
      "subseq d (filter (\<lambda>m. \<not> isControl m) (received evs))"
    by blast
  from d(2) have "\<forall>m \<in> set d. \<not> isControl m"
    by (auto dest: subseq_filter_set)
  with d show "\<exists>d. messagesChan (messageLoop evs q) = messagesChan q @ d
        \<and> subseq d (filter (\<lambda>m. \<not> isControl m) (received evs))
        \<and> (\<forall>m \<in> set d. \<not> isControl m)"
    by blast
next
  assume "\<not> ctxDone q \<and> \<not> stopChan q \<and> quiet evs \<and> pendingSlotsFree q"
  then show "messagesChan (messageLoop evs q) =
          messagesChan q @ filter (\<lambda>m. \<not> isControl m) (received evs)"
    by (simp add: messageLoop_complete)
qed

lemma first_request_id: "requestIDString (wrap64 (0 + 1)) = ''req_1''"
  by code_simp

lemma pendingQuery_fields:
  "requestMap pendingQuery = [''req_1'' \<mapsto> 0]" "chans pendingQuery = (\<lambda>_. [])"
  "nextChan pendingQuery = 1" "ctxErr pendingQuery = None" "stopChan pendingQuery = False"
  "messagesChan pendingQuery = []"
  using first_request_id
  by (simp_all add: pendingQuery_def sendControlRequest_issue_def generateRequestID_def
      connectedQuery_def NewQuery_def marshalCompact_def Write_def transportConnect_def
      NewSubprocessCLITransport_def Let_def fun_eq_iff)

lemma pendingQuery_free: "pendingSlotsFree pendingQuery"
  by (simp add: pendingSlotsFree_def pendingQuery_fields split: if_splits)

theorem consumer_stream_witness:
  "\<not> ctxDone pendingQuery \<and> \<not> stopChan pendingQuery \<and> quiet exampleEvents
   \<and> pendingSlotsFree pendingQuery
   \<and> received exampleEvents =
       [assistantExample, SystemMsg (responseMessage successPayload),
        SystemMsg (requestMessage bashRequest), resultExample]
   \<and> messagesChan (messageLoop exampleEvents pendingQuery) = [assistantExample, resultExample]"
proof -
  have h: "\<not> ctxDone pendingQuery \<and> \<not> stopChan pendingQuery \<and> quiet exampleEvents
      \<and> pendingSlotsFree pendingQuery"
    by (simp add: ctxDone_def pendingQuery_fields pendingQuery_free exampleEvents_def)
  have r: "received exampleEvents =
       [assistantExample, SystemMsg (responseMessage successPayload),
        SystemMsg (requestMessage bashRequest), resultExample]"
    by (simp add: exampleEvents_def)
  have f: "filter (\<lambda>m. \<not> isControl m) (received exampleEvents) = [assistantExample, resultExample]"
    unfolding r by (simp add: isControl_def assistantExample_def resultExample_def
        responseMessage_def requestMessage_def)
  from consumer_stream_is_the_filtered_transport_stream [of exampleEvents pendingQuery,
      THEN conjunct2, rule_format, OF h] f
  have "messagesChan (messageLoop exampleEvents pendingQuery) = [assistantExample, resultExample]"
    by (simp add: pendingQuery_fields)
  with h r show ?thesis by blast
qed

subsection \<open>Request identifiers\<close>

lemma digitChar_inj: "a < 10 \<Longrightarrow> b < 10 \<Longrightarrow> digitChar a = digitChar b \<Longrightarrow> a = b"
  by (simp add: digitChar_def char_of_eq_iff take_bit_nat_eq_self)

lemma natToDec_nonempty: "natToDec n \<noteq> []"
  by (subst natToDec.simps) simp

lemma natToDec_length_one: "length (natToDec n) = Suc 0 \<longleftrightarrow> n < 10"
proof
  assume l: "length (natToDec n) = Suc 0"
  show "n < 10"
  proof (rule ccontr)
    assume "\<not> n < 10"
    then have "natToDec n = natToDec (n div 10) @ [digitChar (n mod 10)]"
      by (subst natToDec.simps) simp
    with l natToDec_nonempty [of "n div 10"] show False by (cases "natToDec (n div 10)") simp_all
  qed
next
  assume "n < 10"
  then show "length (natToDec n) = Suc 0" by (subst natToDec.simps) simp
qed

lemma natToDec_inj: "natToDec m = natToDec n \<Longrightarrow> m = n"
proof (induction m arbitrary: n rule: natToDec.induct)
  case (1 m)
  show ?case
  proof (cases "m < 10")
    case True
    then have m: "natToDec m = [digitChar m]" by (subst natToDec.simps) simp
    from m "1.prems" have "natToDec n = [digitChar m]" by simp
    then have "length (natToDec n) = Suc 0" by simp
    then have n: "n < 10" by (simp add: natToDec_length_one)
    then have "natToDec n = [digitChar n]" by (subst natToDec.simps) simp
    with m "1.prems" True n show ?thesis by (simp add: digitChar_inj)
  next
    case False
    then have m: "natToDec m = natToDec (m div 10) @ [digitChar (m mod 10)]"
      by (subst natToDec.simps) simp
    have "\<not> n < 10"
    proof
      assume "n < 10"
      then have "length (natToDec n) = Suc 0" by (simp add: natToDec_length_one)
      with "1.prems" have "length (natToDec m) = Suc 0" by simp
      with False show False by (simp add: natToDec_length_one)
    qed
    then have n: "natToDec n = natToDec (n div 10) @ [digitChar (n mod 10)]"
      by (subst natToDec.simps) simp
    from m n "1.prems" have eq: "natToDec (m div 10) = natToDec (n div 10)"
      and d: "digitChar (m mod 10) = digitChar (n mod 10)" by simp_all
    from "1.IH" [OF False eq] have "m div 10 = n div 10" .
    moreover from d have "m mod 10 = n mod 10" by (simp add: digitChar_inj)
    ultimately show ?thesis by (metis div_mult_mod_eq)
  qed
qed

lemma requestIDString_inj: "requestIDString (int m) = requestIDString (int n) \<Longrightarrow> m = n"
  by (simp add: requestIDString_def itoa_def natToDec_inj)

lemma wrap64_no_overflow: "0 \<le> x \<Longrightarrow> x < 2 ^ 63 - 1 \<Longrightarrow> wrap64 (x + 1) = x + 1"
  by (simp add: wrap64_def)

lemma fresh_request_id:
  assumes "idsIssued n q"
  shows "requestMap q (requestIDString (int (Suc n))) = None"
proof (cases "requestMap q (requestIDString (int (Suc n)))")
  case (Some responseChan)
  with assms obtain k where k: "k \<le> n"
    and eq: "requestIDString (int (Suc n)) = requestIDString (int k)"
    unfolding idsIssued_def by blast
  from eq have "Suc n = k" by (rule requestIDString_inj)
  with k show ?thesis by simp
qed simp

lemma fresh_channel:
  assumes "pendingSlotsFree q"
  shows "requestMap q other \<noteq> Some (nextChan q)"
  using assms unfolding pendingSlotsFree_def by force

lemma register_keeps_invariants:
  assumes inv: "idsIssued n q" and free: "pendingSlotsFree q"
  defines "q2 \<equiv> q\<lparr>nextRequestID := int (Suc n), nextChan := Suc (nextChan q),
                   chans := (chans q)(nextChan q := []),
                   requestMap := (requestMap q)(requestIDString (int (Suc n)) \<mapsto> nextChan q)\<rparr>"
  shows "idsIssued (Suc n) q2" and "pendingSlotsFree q2"
proof -
  show "idsIssued (Suc n) q2"
    using inv unfolding idsIssued_def q2_def
    by (auto split: if_splits intro: exI [of _ "Suc n"] le_SucI)
  show "pendingSlotsFree q2"
    using free fresh_channel [OF free] unfolding pendingSlotsFree_def q2_def
    by (auto split: if_splits intro: less_SucI)
qed

lemma unregister_keeps_invariants:
  assumes "idsIssued n q" and "pendingSlotsFree q"
  shows "idsIssued n (q\<lparr>requestMap := (requestMap q)(requestID := None)\<rparr>)"
    and "pendingSlotsFree (q\<lparr>requestMap := (requestMap q)(requestID := None)\<rparr>)"
  using assms unfolding idsIssued_def pendingSlotsFree_def by (auto split: if_splits)

lemma generateRequestID_next:
  assumes "idsIssued n q" and "int n < 2 ^ 63 - 1"
  shows "generateRequestID q =
    (q\<lparr>nextRequestID := int (Suc n)\<rparr>, requestIDString (int (Suc n)))"
proof -
  from assms have "wrap64 (nextRequestID q + 1) = int (Suc n)"
    by (simp add: idsIssued_def wrap64_no_overflow)
  then show ?thesis by (simp add: generateRequestID_def Let_def)
qed

lemma issue_streaming:
  assumes inv: "idsIssued n q" and free: "pendingSlotsFree q"
    and bound: "int n < 2 ^ 63 - 1" and streaming: "isStreamingMode q"
  shows "\<exists>q1 r. sendControlRequest_issue marshal wl request q = (q1, r)
      \<and> idsIssued (Suc n) q1 \<and> pendingSlotsFree q1 \<and> isStreamingMode q1
      \<and> (\<forall>requestID responseChan. r = Inr (requestID, responseChan) \<longrightarrow>
            requestID = requestIDString (int (Suc n)) \<and> requestMap q requestID = None
            \<and> requestMap q1 = (requestMap q)(requestID \<mapsto> responseChan)
            \<and> chans q1 responseChan = []
            \<and> (\<forall>other. requestMap q other \<noteq> Some responseChan))"
proof -
  define rid where "rid = requestIDString (int (Suc n))"
  define q2 where "q2 = q\<lparr>nextRequestID := int (Suc n), nextChan := Suc (nextChan q),
                   chans := (chans q)(nextChan q := []),
                   requestMap := (requestMap q)(rid \<mapsto> nextChan q)\<rparr>"
  define cr where "cr = JObject [(''type'', JString ''control_request''),
                                       (''request_id'', JString rid),
                                       (''request'', JObject request)]"
  note g = generateRequestID_next [OF inv bound]
  have i2: "idsIssued (Suc n) q2" and f2: "pendingSlotsFree q2"
    using register_keeps_invariants [OF inv free] unfolding q2_def rid_def by simp_all
  have s2: "isStreamingMode q2" using streaming by (simp add: q2_def)
  have fresh: "requestMap q rid = None"
    using fresh_request_id [OF inv] by (simp add: rid_def)
  have unfold: "sendControlRequest_issue marshal wl request q =
      (case marshal cr of
              Inl e \<Rightarrow>
                (q2\<lparr>requestMap := (requestMap q2)(rid := None)\<rparr>,
                 Inl (ControlProtocolError ''failed to marshal control request'' (Some e)))
            | Inr data \<Rightarrow>
                (case Write wl data (transport q2) of
                   (t, Some e) \<Rightarrow>
                     (q2\<lparr>transport := t, requestMap := (requestMap q2)(rid := None)\<rparr>,
                      Inl (ControlProtocolError ''failed to send control request'' (Some e)))
                 | (t, None) \<Rightarrow> (q2\<lparr>transport := t\<rparr>, Inr (rid, nextChan q))))"
    using streaming
    by (simp add: sendControlRequest_issue_def g q2_def cr_def rid_def Let_def
        split: sum.splits prod.splits option.splits)
  have tr: "idsIssued m (x\<lparr>transport := t\<rparr>) = idsIssued m x"
    "pendingSlotsFree (x\<lparr>transport := t\<rparr>) = pendingSlotsFree x" for m x t
    by (simp_all add: idsIssued_def pendingSlotsFree_def)
  show ?thesis
  proof (cases "marshal cr")
    case (Inl e)
    with unfold i2 f2 s2 show ?thesis
      by (simp add: unregister_keeps_invariants)
  next
    case (Inr data)
    obtain t we where w: "Write wl data (transport q2) = (t, we)"
      by (cases "Write wl data (transport q2)")
    show ?thesis
    proof (cases we)
      case None
      have "requestMap (q2\<lparr>transport := t\<rparr>) = (requestMap q)(rid \<mapsto> nextChan q)"
        "chans (q2\<lparr>transport := t\<rparr>) (nextChan q) = []"
        by (simp_all add: q2_def)
      with unfold Inr w None i2 f2 s2 fresh fresh_channel [OF free] show ?thesis
        by (simp add: tr rid_def)
    next
      case (Some e)
      have "q2\<lparr>transport := t, requestMap := (requestMap q2)(rid := None)\<rparr> =
          (q2\<lparr>requestMap := (requestMap q2)(rid := None)\<rparr>)\<lparr>transport := t\<rparr>"
        by simp
      with unfold Inr w Some i2 f2 s2 show ?thesis
        by (simp add: tr unregister_keeps_invariants del: Query.update_convs)
    qed
  qed
qed

lemma deliver_cases:
  "deliver pickDone responseChan r q = Some q1 \<Longrightarrow>
   q1 = q \<or> (chans q responseChan = [] \<and> q1 = q\<lparr>chans := (chans q)(responseChan := [r])\<rparr>)"
  by (auto simp: deliver_def split: if_splits)

lemma filled_keeps_invariants:
  assumes inv: "idsIssued n q" and free: "pendingSlotsFree q"
    and reg: "requestMap q requestID = Some responseChan"
  shows "idsIssued n (q\<lparr>requestMap := (requestMap q)(requestID := None),
                        chans := (chans q)(responseChan := rs)\<rparr>)"
    and "pendingSlotsFree (q\<lparr>requestMap := (requestMap q)(requestID := None),
                        chans := (chans q)(responseChan := rs)\<rparr>)"
proof -
  show "idsIssued n (q\<lparr>requestMap := (requestMap q)(requestID := None),
                        chans := (chans q)(responseChan := rs)\<rparr>)"
    using inv unfolding idsIssued_def by (auto split: if_splits)
  from free reg have only: "\<And>other. requestMap q other = Some responseChan \<Longrightarrow> other = requestID"
    by (auto simp: pendingSlotsFree_def)
  show "pendingSlotsFree (q\<lparr>requestMap := (requestMap q)(requestID := None),
                        chans := (chans q)(responseChan := rs)\<rparr>)"
    using free only unfolding pendingSlotsFree_def by (auto split: if_splits)
qed

lemma handleControlResponse_cases:
  assumes "handleControlResponse pickDone msg q = Some (q1, e)"
  shows "q1 = q \<or> (\<exists>requestID responseChan rs. requestMap q requestID = Some responseChan \<and>
      (q1 = q\<lparr>requestMap := (requestMap q)(requestID := None)\<rparr> \<or>
       q1 = q\<lparr>requestMap := (requestMap q)(requestID := None),
              chans := (chans q)(responseChan := rs)\<rparr>))"
proof (cases "Response msg")
  case None
  with assms show ?thesis by (simp add: handleControlResponse_def)
next
  case (Some responseData)
  obtain requestID ok where rid: "asString responseData ''request_id'' = (requestID, ok)"
    by (cases "asString responseData ''request_id''")
  show ?thesis
  proof (cases "ok \<and> requestMap q requestID \<noteq> None")
    case False
    with assms Some rid show ?thesis
      by (auto simp: handleControlResponse_def split: bool.splits option.splits)
  next
    case True
    then obtain responseChan where ch: "requestMap q requestID = Some responseChan" and ok: ok
      by auto
    define q0 where "q0 = q\<lparr>requestMap := (requestMap q)(requestID := None)\<rparr>"
    from assms Some rid ok ch obtain r where "deliver pickDone responseChan r q0 = Some q1"
      by (auto simp: handleControlResponse_def Let_def q0_def split: if_splits)
    from deliver_cases [OF this]
    have "q1 = q0 \<or> q1 = q0\<lparr>chans := (chans q0)(responseChan := [r])\<rparr>" by blast
    then have "q1 = q\<lparr>requestMap := (requestMap q)(requestID := None)\<rparr> \<or>
       q1 = q\<lparr>requestMap := (requestMap q)(requestID := None),
              chans := (chans q)(responseChan := [r])\<rparr>"
      by (auto simp: q0_def)
    with ch show ?thesis by blast
  qed
qed

lemma respond_keeps_invariants:
  assumes inv: "idsIssued n q" and free: "pendingSlotsFree q"
    and r: "handleControlResponse pickDone msg q = Some (q1, e)"
  shows "idsIssued n q1 \<and> pendingSlotsFree q1 \<and> isStreamingMode q1 = isStreamingMode q"
  using handleControlResponse_cases [OF r] inv free
  by (auto simp: filled_keeps_invariants unregister_keeps_invariants)

lemma await_keeps_invariants:
  assumes inv: "idsIssued n q" and free: "pendingSlotsFree q"
    and r: "sendControlRequest_wait callerErr pickDone requestID responseChan q = Some (q1, res)"
  shows "idsIssued n q1 \<and> pendingSlotsFree q1 \<and> isStreamingMode q1 = isStreamingMode q"
proof -
  from r have "q1 = q\<lparr>requestMap := (requestMap q)(requestID := None)\<rparr> \<or>
      (\<exists>r0 rest. chans q responseChan = r0 # rest \<and> q1 = q\<lparr>chans := (chans q)(responseChan := rest)\<rparr>)"
    by (auto simp: sendControlRequest_wait_def split: list.splits option.splits if_splits)
  then show ?thesis
  proof
    assume "q1 = q\<lparr>requestMap := (requestMap q)(requestID := None)\<rparr>"
    with inv free show ?thesis by (simp add: unregister_keeps_invariants)
  next
    assume "\<exists>r0 rest. chans q responseChan = r0 # rest \<and> q1 = q\<lparr>chans := (chans q)(responseChan := rest)\<rparr>"
    then obtain r0 rest where c: "chans q responseChan = r0 # rest"
      and q1: "q1 = q\<lparr>chans := (chans q)(responseChan := rest)\<rparr>" by blast
    have "idsIssued n q1" using inv by (simp add: q1 idsIssued_def)
    moreover have "pendingSlotsFree q1"
      using free c unfolding pendingSlotsFree_def q1 by (auto split: if_splits)
    ultimately show ?thesis by (simp add: q1)
  qed
qed

lemma routerStep_keeps_invariants:
  assumes inv: "idsIssued n q" and free: "pendingSlotsFree q" and bound: "int n < 2 ^ 63 - 1"
  shows "\<exists>c. c \<le> 1 \<and> idsIssued (n + c) (routerStep marshal ev q)
      \<and> pendingSlotsFree (routerStep marshal ev q)
      \<and> isStreamingMode (routerStep marshal ev q) = isStreamingMode q
      \<and> issued marshal (ev # evs) q =
          map (\<lambda>k. requestIDString (int k)) [Suc n ..< Suc (n + c)]
          @ issued marshal evs (routerStep marshal ev q)"
proof (cases ev)
  case (Issue request wl)
  show ?thesis
  proof (cases "isStreamingMode q")
    case True
    from issue_streaming [OF inv free bound True, of marshal wl request]
    obtain q1 r where "sendControlRequest_issue marshal wl request q = (q1, r)"
      "idsIssued (Suc n) q1" "pendingSlotsFree q1" "isStreamingMode q1" by blast
    with Issue True generateRequestID_next [OF inv bound] show ?thesis
      by (intro exI [of _ 1]) simp
  next
    case False
    with Issue inv free show ?thesis
      by (intro exI [of _ 0]) (simp add: sendControlRequest_issue_def)
  qed
next
  case (Respond msg pickDone)
  show ?thesis
  proof (cases "handleControlResponse pickDone msg q")
    case None
    with Respond inv free show ?thesis by (intro exI [of _ 0]) simp
  next
    case (Some a)
    obtain q1 e where a: "a = (q1, e)" by (cases a)
    from respond_keeps_invariants [OF inv free Some [unfolded a]] Respond Some a
    show ?thesis by (intro exI [of _ 0]) simp
  qed
next
  case (Await requestID responseChan callerErr pickDone)
  show ?thesis
  proof (cases "sendControlRequest_wait callerErr pickDone requestID responseChan q")
    case None
    with Await inv free show ?thesis by (intro exI [of _ 0]) simp
  next
    case (Some a)
    obtain q1 res where a: "a = (q1, res)" by (cases a)
    from await_keeps_invariants [OF inv free Some [unfolded a]] Await Some a
    show ?thesis by (intro exI [of _ 0]) simp
  qed
next
  case (Cancel e)
  with inv free show ?thesis
    by (intro exI [of _ 0])
      (simp add: cancelCtx_def idsIssued_def pendingSlotsFree_def split: option.splits)
qed

lemma run_keeps_invariants:
  "idsIssued n q \<Longrightarrow> pendingSlotsFree q \<Longrightarrow> int n + int (length evs) < 2 ^ 63 - 1 \<Longrightarrow>
   \<exists>c. c \<le> length evs \<and> idsIssued (n + c) (run marshal evs q)
      \<and> pendingSlotsFree (run marshal evs q)
      \<and> isStreamingMode (run marshal evs q) = isStreamingMode q
      \<and> issued marshal evs q = map (\<lambda>k. requestIDString (int k)) [Suc n ..< Suc (n + c)]"
proof (induction evs arbitrary: n q)
  case Nil
  then show ?case by simp
next
  case (Cons ev evs)
  from Cons.prems have b: "int n < 2 ^ 63 - 1" by simp
  from routerStep_keeps_invariants [OF Cons.prems(1,2) b, of marshal ev evs]
  obtain c where c: "c \<le> 1" and i: "idsIssued (n + c) (routerStep marshal ev q)"
    and f: "pendingSlotsFree (routerStep marshal ev q)"
    and s: "isStreamingMode (routerStep marshal ev q) = isStreamingMode q"
    and l: "issued marshal (ev # evs) q =
          map (\<lambda>k. requestIDString (int k)) [Suc n ..< Suc (n + c)]
          @ issued marshal evs (routerStep marshal ev q)"
    by blast
  from Cons.prems(3) c have "int (n + c) + int (length evs) < 2 ^ 63 - 1" by simp
  from Cons.IH [OF i f this]
  obtain d where d: "d \<le> length evs"
    and i2: "idsIssued (n + c + d) (run marshal evs (routerStep marshal ev q))"
    and f2: "pendingSlotsFree (run marshal evs (routerStep marshal ev q))"
    and s2: "isStreamingMode (run marshal evs (routerStep marshal ev q))
        = isStreamingMode (routerStep marshal ev q)"
    and l2: "issued marshal evs (routerStep marshal ev q) =
        map (\<lambda>k. requestIDString (int k)) [Suc (n + c) ..< Suc (n + c + d)]"
    by blast
  have "[Suc n ..< Suc (n + c)] @ [Suc (n + c) ..< Suc (n + c + d)] = [Suc n ..< Suc (n + (c + d))]"
    by (metis add.assoc le_add1 upt_add_eq_append add_Suc)
  with l l2 have "issued marshal (ev # evs) q =
      map (\<lambda>k. requestIDString (int k)) [Suc n ..< Suc (n + (c + d))]"
    by (metis map_append)
  with c d i2 f2 s s2 show ?case
    by (intro exI [of _ "c + d"]) (simp add: add.assoc)
qed

lemma NewQuery_invariants:
  "idsIssued 0 (NewQuery parentErr tr cb streaming)"
  "pendingSlotsFree (NewQuery parentErr tr cb streaming)"
  by (simp_all add: NewQuery_def idsIssued_def pendingSlotsFree_def)

lemma wait_cancelled:
  "chans q responseChan = [] \<Longrightarrow>
   sendControlRequest_wait (Some e) pickDone requestID responseChan q =
     Some (q\<lparr>requestMap := (requestMap q)(requestID := None)\<rparr>, Inl e)"
  by (simp add: sendControlRequest_wait_def)

text \<open>
  C3. Along every run of a router started by \<open>NewQuery\<close> (issued requests, handled
  responses, waits that fire, cancellation, in any order) of fewer than \<open>2^63 - 1\<close>
  events, the identifiers generated are \<open>req_1\<close>, \<open>req_2\<close>, ... in this order, so they
  increase and are pairwise distinct; every registered response channel is empty and
  registered once; and the next request that gets as far as its wait has an
  identifier that was never generated before and is not pending, registered with a
  new, empty channel of its own. A wait whose caller's context is cancelled while the
  channel is empty removes the entry and returns the context's error.
\<close>

theorem request_ids_are_unique_and_increasing:
  assumes len: "int (length evs) < 2 ^ 63 - 1"
  shows
   "(\<exists>c. c \<le> length evs \<and> issued marshal evs (NewQuery parentErr tr cb streaming) =
        map (\<lambda>k. requestIDString (int k)) [1 ..< Suc c])
  \<and> distinct (issued marshal evs (NewQuery parentErr tr cb streaming))
  \<and> pendingSlotsFree (run marshal evs (NewQuery parentErr tr cb streaming))
  \<and> (\<forall>request wl q1 requestID responseChan.
        sendControlRequest_issue marshal wl request
            (run marshal evs (NewQuery parentErr tr cb streaming))
          = (q1, Inr (requestID, responseChan)) \<longrightarrow>
        requestID \<notin> set (issued marshal evs (NewQuery parentErr tr cb streaming))
        \<and> requestMap (run marshal evs (NewQuery parentErr tr cb streaming)) requestID = None
        \<and> requestMap q1 =
            (requestMap (run marshal evs (NewQuery parentErr tr cb streaming)))
              (requestID \<mapsto> responseChan)
        \<and> chans q1 responseChan = []
        \<and> (\<forall>other. requestMap (run marshal evs (NewQuery parentErr tr cb streaming)) other
              \<noteq> Some responseChan))
  \<and> (\<forall>q requestID responseChan e. chans q responseChan = [] \<longrightarrow>
        sendControlRequest_wait (Some e) pickDone requestID responseChan q =
          Some (q\<lparr>requestMap := (requestMap q)(requestID := None)\<rparr>, Inl e))"
proof -
  let ?start = "NewQuery parentErr tr cb streaming"
  let ?now = "run marshal evs ?start"
  from len have "int 0 + int (length evs) < 2 ^ 63 - 1" by simp
  from run_keeps_invariants [OF NewQuery_invariants [of parentErr tr cb streaming] this, of marshal]
  obtain c where c: "c \<le> length evs" and inv: "idsIssued c ?now" and free: "pendingSlotsFree ?now"
    and l: "issued marshal evs ?start = map (\<lambda>k. requestIDString (int k)) [1 ..< Suc c]"
    by (auto simp del: upt_Suc)
  have inj: "inj_on (\<lambda>k. requestIDString (int k)) A" for A
    by (rule inj_onI) (rule requestIDString_inj)
  have dist: "distinct (issued marshal evs ?start)"
    unfolding l by (simp add: distinct_map inj del: upt_Suc)
  from c len have bound: "int c < 2 ^ 63 - 1" by simp
  have send: "requestID \<notin> set (issued marshal evs ?start)
        \<and> requestMap ?now requestID = None
        \<and> requestMap q1 = (requestMap ?now)(requestID \<mapsto> responseChan)
        \<and> chans q1 responseChan = []
        \<and> (\<forall>other. requestMap ?now other \<noteq> Some responseChan)"
    if s: "sendControlRequest_issue marshal wl request ?now = (q1, Inr (requestID, responseChan))"
    for request wl q1 requestID responseChan
  proof -
    have streaming: "isStreamingMode ?now"
    proof (rule ccontr)
      assume "\<not> isStreamingMode ?now"
      with s show False by (simp add: sendControlRequest_issue_def)
    qed
    from issue_streaming [OF inv free bound streaming, of marshal wl request] s
    have r: "requestID = requestIDString (int (Suc c))" "requestMap ?now requestID = None"
      "requestMap q1 = (requestMap ?now)(requestID \<mapsto> responseChan)"
      "chans q1 responseChan = []" "\<forall>other. requestMap ?now other \<noteq> Some responseChan"
      by auto
    have "requestID \<notin> set (issued marshal evs ?start)"
    proof
      assume "requestID \<in> set (issued marshal evs ?start)"
      then have "requestIDString (int (Suc c)) \<in> (\<lambda>k. requestIDString (int k)) ` {1 ..< Suc c}"
        unfolding l r(1) by (simp del: upt_Suc of_nat_Suc)
      then obtain k where k: "k < Suc c"
        and eq: "requestIDString (int (Suc c)) = requestIDString (int k)"
        by (auto simp del: of_nat_Suc)
      from eq have "Suc c = k" by (rule requestIDString_inj)
      with k show False by simp
    qed
    with r show ?thesis by blast
  qed
  have a: "\<exists>c. c \<le> length evs \<and> issued marshal evs ?start =
        map (\<lambda>k. requestIDString (int k)) [1 ..< Suc c]"
    using c l by blast
  have d: "\<forall>request wl q1 requestID responseChan.
        sendControlRequest_issue marshal wl request ?now = (q1, Inr (requestID, responseChan)) \<longrightarrow>
        requestID \<notin> set (issued marshal evs ?start)
        \<and> requestMap ?now requestID = None
        \<and> requestMap q1 = (requestMap ?now)(requestID \<mapsto> responseChan)
        \<and> chans q1 responseChan = []
        \<and> (\<forall>other. requestMap ?now other \<noteq> Some responseChan)"
    using send by blast
  have e: "\<forall>(q :: Query) requestID responseChan e. chans q responseChan = [] \<longrightarrow>
        sendControlRequest_wait (Some e) pickDone requestID responseChan q =
          Some (q\<lparr>requestMap := (requestMap q)(requestID := None)\<rparr>, Inl e)"
    by (simp add: wait_cancelled)
  show ?thesis
    using a dist free d e by (intro conjI) assumption+
qed

theorem request_ids_witness:
  "int (length exampleRun) < 2 ^ 63 - 1
   \<and> issued marshalCompact exampleRun (connectedQuery None) = [''req_1'', ''req_2'']
   \<and> distinct (issued marshalCompact exampleRun (connectedQuery None))
   \<and> snd (sendControlRequest_issue marshalCompact None [(''subtype'', JString ''interrupt'')]
          (run marshalCompact exampleRun (connectedQuery None))) = Inr (''req_3'', 2)
   \<and> requestMap (run marshalCompact exampleRun (connectedQuery None)) ''req_3'' = None
   \<and> requestMap (fst (sendControlRequest_issue marshalCompact None
          [(''subtype'', JString ''interrupt'')]
          (run marshalCompact exampleRun (connectedQuery None)))) ''req_3'' = Some 2
   \<and> map_option (\<lambda>(q1, r). (requestMap q1 ''req_1'', r))
        (sendControlRequest_wait (Some (Foreign ''context canceled'')) False ''req_1'' 0
           pendingQuery)
      = Some (None, Inl (Foreign ''context canceled''))"
proof -
  let ?now = "run marshalCompact exampleRun (connectedQuery None)"
  let ?send = "sendControlRequest_issue marshalCompact None [(''subtype'', JString ''interrupt'')] ?now"
  have len: "int (length exampleRun) < 2 ^ 63 - 1"
    by (simp add: exampleRun_def)
  note t = request_ids_are_unique_and_increasing [OF len, where marshal = marshalCompact
      and parentErr = None and tr = "fst (transportConnect None NewSubprocessCLITransport)"
      and cb = None and streaming = True and pickDone = False, folded connectedQuery_def]
  have i: "issued marshalCompact exampleRun (connectedQuery None) = [''req_1'', ''req_2'']"
    by code_simp
  have s: "snd ?send = Inr (''req_3'', 2)"
    by code_simp
  then have s': "?send = (fst ?send, Inr (''req_3'', 2))"
    by (simp add: prod_eq_iff)
  from t have d: "distinct (issued marshalCompact exampleRun (connectedQuery None))"
    by blast
  note t4 = t [THEN conjunct2, THEN conjunct2, THEN conjunct2, THEN conjunct1, rule_format, OF s']
  note t5 = t [THEN conjunct2, THEN conjunct2, THEN conjunct2, THEN conjunct2, rule_format,
      of pendingQuery 0 "Foreign ''context canceled''" "''req_1''"]
  have e: "chans pendingQuery 0 = []" by (simp add: pendingQuery_fields)
  from t4 have m: "requestMap ?now ''req_3'' = None" "requestMap (fst ?send) ''req_3'' = Some 2"
    by simp_all
  from t5 [OF e] have w: "map_option (\<lambda>(q1, r). (requestMap q1 ''req_1'', r))
        (sendControlRequest_wait (Some (Foreign ''context canceled'')) False ''req_1'' 0
           pendingQuery)
      = Some (None, Inl (Foreign ''context canceled''))"
    by simp
  from len i d s m w show ?thesis by (intro conjI)
qed

subsection \<open>The session client\<close>













end
